theory Spec2Isabelle
  imports Main "HOL-Library.Word" "HOL-Library.Monad_Syntax"
begin

section \<open>Go values shared by both collectors\<close>

text \<open>
  Go's \<open>uint64\<close> is a 64-bit word. On the 64-bit platforms the collectors are built for,
  \<open>uint\<close> and \<open>int\<close> are 64 bits wide as well; \<open>int(x)\<close> of a \<open>uint\<close> keeps the bits and
  reads them as two's complement (\<open>sint\<close>), \<open>uint(i)\<close> of an \<open>int\<close> is \<open>word_of_int\<close>.
\<close>

type_synonym uint64 = "64 word"
type_synonym uint = "64 word"

text \<open>
  A Go \<open>error\<close> value. A function returning \<open>(T, error)\<close> is modelled as returning a pair
  whose second component is \<open>None\<close> for a nil error; a nil map or pointer result is \<open>None\<close>
  in the first component.
\<close>

datatype error = Error string | UnmarshalTypeError string string

text \<open>
  The go-kit logger is written to as a side effect; the model passes the list of entries
  written so far and returns it extended. An entry is a level and its key/value pairs.
\<close>

datatype log_level = DebugLevel | InfoLevel | WarnLevel | ErrorLevel

type_synonym logger = "(log_level \<times> (string \<times> string) list) list"

definition level_Debug_Log :: "logger \<Rightarrow> (string \<times> string) list \<Rightarrow> logger" where
  "level_Debug_Log logger keyvals = logger @ [(DebugLevel, keyvals)]"

section \<open>Network device statistics (netdev_windows.go)\<close>

subsection \<open>Types declared outside the source files\<close>

text \<open>
  Modelled from the spec: the declaration of \<open>net.IOCountersStat\<close> (gopsutil) is not among
  the source files. Following the data model of the specification it is the interface name
  plus an open-ended sequence of unsigned 64-bit counters, each listed with the key it is
  serialised under, in declaration order. The interface name is serialised under the key
  \<open>name\<close>, the key that \<open>parseToString\<close> deletes.
\<close>

record IOCountersStat =
  IO_Name :: string
  IO_Counters :: "(string \<times> uint64) list"

text \<open>
  The keys of a Go struct are pairwise different, and no counter shares the key of the
  name field.
\<close>

definition wf_IOCountersStat :: "IOCountersStat \<Rightarrow> bool" where
  "wf_IOCountersStat data \<longleftrightarrow>
     distinct (map fst (IO_Counters data)) \<and> ''name'' \<notin> set (map fst (IO_Counters data))"

text \<open>
  Modelled from the spec: \<open>netDevStats\<close> and \<open>netDevFilter\<close> are declared in another file of
  the package. \<open>netDevStats\<close> maps an interface name to its normalised statistics (a Go
  map value, which may be nil: \<open>None\<close>); of the filter only the method \<open>ignored\<close> is
  called, so the filter is taken as that decision function.
\<close>

type_synonym netDevStats = "string \<rightharpoonup> (string \<rightharpoonup> uint64) option"

type_synonym netDevFilter = "string \<Rightarrow> bool"

subsection \<open>encoding/json on the types used here\<close>

text \<open>
  The serialised form of a struct is a JSON object; it is represented by its members in
  order. The members that occur are strings and integer literals.
\<close>

datatype json_value = JString string | JNumber int

type_synonym json_object = "(string \<times> json_value) list"

text \<open>
  \<open>json.Marshal\<close> is taken as a parameter of the functions that call it, so that its
  error return is a branch of the model. \<open>json_Marshal\<close> is what the library does on an
  \<open>IOCountersStat\<close>: every field is written, and no error is reported.
\<close>

type_synonym marshaler = "IOCountersStat \<Rightarrow> json_object \<times> error option"

definition json_Marshal :: marshaler where
  "json_Marshal data =
     ((''name'', JString (IO_Name data)) #
        map (\<lambda>(k, v). (k, JNumber (uint v))) (IO_Counters data),
      None)"

text \<open>
  Decoding one member into a \<open>uint64\<close> map element: a string, or a number that is not an
  unsigned 64-bit integer, is a type error and leaves the zero value in the element.
\<close>

fun decode_uint64 :: "string \<Rightarrow> json_value \<Rightarrow> uint64 \<times> error option" where
  "decode_uint64 k (JString s) = (0, Some (UnmarshalTypeError ''string'' k))"
| "decode_uint64 k (JNumber n) =
     (if 0 \<le> n \<and> n < 2 ^ 64 then (word_of_int n, None)
      else (0, Some (UnmarshalTypeError ''number'' k)))"

text \<open>
  \<open>json.Unmarshal\<close> into a non-nil \<open>map[string]uint64\<close>: the existing entries are kept,
  every member is stored under its key (the zero value when its decoding failed), decoding
  goes on after a type error, and the first type error is the one returned.
\<close>

fun json_Unmarshal ::
  "json_object \<Rightarrow> (string \<rightharpoonup> uint64) \<Rightarrow> (string \<rightharpoonup> uint64) \<times> error option" where
  "json_Unmarshal [] m = (m, None)"
| "json_Unmarshal ((k, v) # kvs) m =
     (let (x, e) = decode_uint64 k v;
          (m', e') = json_Unmarshal kvs (m(k \<mapsto> x))
      in (m', if e \<noteq> None then e else e'))"

subsection \<open>parseToString\<close>

definition parseToString ::
  "marshaler \<Rightarrow> IOCountersStat \<Rightarrow> (string \<rightharpoonup> uint64) option \<times> error option" where
  "parseToString marshal data =
     (let statistic = Map.empty;
          (statsBytes, err) = marshal data
      in if err \<noteq> None then (None, err)
         else
           let (statistic, _) = json_Unmarshal statsBytes statistic;
               statistic = statistic(''name'' := None)
           in (Some statistic, None))"

subsection \<open>parseNetDevStats and getNetDevStats\<close>

text \<open>
  The \<open>for ... range ni\<close> loop, with the map \<open>netDev\<close> built so far and the logger as
  loop state. A \<open>return\<close> inside the loop ends it.
\<close>

fun parseNetDevStats_loop ::
  "marshaler \<Rightarrow> IOCountersStat list \<Rightarrow> netDevFilter \<Rightarrow> logger \<Rightarrow> netDevStats \<Rightarrow>
     netDevStats option \<times> error option \<times> logger" where
  "parseNetDevStats_loop marshal [] ignored logger netDev = (Some netDev, None, logger)"
| "parseNetDevStats_loop marshal (net # ni) ignored logger netDev =
     (let dev = IO_Name net in
      if ignored dev then
        parseNetDevStats_loop marshal ni ignored
          (level_Debug_Log logger [(''msg'', ''Ignoring device''), (''device'', dev)]) netDev
      else
        let (statistic, err) = parseToString marshal net in
        if err \<noteq> None then (None, err, logger)
        else parseNetDevStats_loop marshal ni ignored logger (netDev(dev \<mapsto> statistic)))"

definition parseNetDevStats ::
  "marshaler \<Rightarrow> IOCountersStat list \<Rightarrow> netDevFilter \<Rightarrow> logger \<Rightarrow>
     netDevStats option \<times> error option \<times> logger" where
  "parseNetDevStats marshal ni ignored logger =
     parseNetDevStats_loop marshal ni ignored logger Map.empty"

text \<open>
  \<open>net.IOCounters(true)\<close> is the platform query; its result for the pass is a parameter.
\<close>

definition getNetDevStats ::
  "(bool \<Rightarrow> IOCountersStat list \<times> error option) \<Rightarrow> marshaler \<Rightarrow> netDevFilter \<Rightarrow> logger \<Rightarrow>
     netDevStats option \<times> error option \<times> logger" where
  "getNetDevStats net_IOCounters marshal ignored logger =
     (let (netInterfaces, err) = net_IOCounters True
      in if err \<noteq> None then (None, err, logger)
         else parseNetDevStats marshal netInterfaces ignored logger)"

section \<open>GPU devices (gpu_common.go)\<close>

subsection \<open>The vendor library gonvml\<close>

text \<open>
  The NVML binding is an external collaborator whose every call may fail. What each call
  returns during one pass is a parameter: a record of results, one per call, the
  per-device reads reached through the handle that \<open>DeviceHandleByIndex\<close> returns.
\<close>

record Device =
  Device_UUID :: "string \<times> error option"
  Device_Name :: "string \<times> error option"
  Device_MinorNumber :: "uint \<times> error option"
  Device_Temperature :: "uint \<times> error option"
  Device_PowerUsage :: "uint \<times> error option"
  Device_FanSpeed :: "uint \<times> error option"
  Device_MemoryInfo :: "(uint64 \<times> uint64) \<times> error option"
  Device_UtilizationRates :: "(uint \<times> uint) \<times> error option"
  Device_AverageGPUUtilization :: "int \<Rightarrow> uint \<times> error option"

record gonvml =
  Initialize :: "error option"
  Shutdown :: "error option"
  SystemDriverVersion :: "string \<times> error option"
  DeviceCount :: "uint \<times> error option"
  DeviceHandleByIndex :: "uint \<Rightarrow> Device \<times> error option"

text \<open>The calls made to the library, in order, are the observable effect of a pass.\<close>

datatype device_read =
  ReadUUID | ReadName | ReadMinorNumber | ReadTemperature | ReadPowerUsage | ReadFanSpeed
  | ReadMemoryInfo | ReadUtilizationRates | ReadAverageGPUUtilization int

datatype gonvml_call =
  CallInitialize | CallShutdown | CallSystemDriverVersion | CallDeviceCount
  | CallDeviceHandleByIndex uint | CallDevice uint device_read

subsection \<open>Values and strings\<close>

text \<open>
  The telemetry values are converted with \<open>float64(x)\<close> from unsigned integers. The
  converted value is kept as the integer it was made from; the rounding of integers above
  \<open>2 ^ 53\<close> is not represented.
\<close>

datatype float64 = float64 uint64

text \<open>\<open>strconv.Itoa\<close>: the decimal form of an \<open>int\<close>.\<close>

function decimal :: "nat \<Rightarrow> string" where
  "decimal n = (if n < 10 then [char_of (48 + n)] else decimal (n div 10) @ [char_of (48 + n mod 10)])"
  by pat_completeness auto
termination
  by (relation "measure id") auto

declare decimal.simps [simp del]

definition Itoa :: "int \<Rightarrow> string" where
  "Itoa i = (if i < 0 then CHR ''-'' # decimal (nat (- i)) else decimal (nat i))"

text \<open>\<open>10 * time.Second\<close>, a \<open>time.Duration\<close> in nanoseconds.\<close>

definition averageDuration :: int where
  "averageDuration = 10 * 1000000000"

subsection \<open>The metric library\<close>

datatype ValueType = CounterValue | GaugeValue | UntypedValue

record Desc =
  fqName :: string
  helpText :: string
  variableLabels :: "string list"

record Metric =
  desc :: Desc
  valType :: ValueType
  val :: float64
  labelValues :: "string list"

definition BuildFQName :: "string \<Rightarrow> string \<Rightarrow> string \<Rightarrow> string" where
  "BuildFQName namespace subsystem name =
     (if name = [] then []
      else if namespace \<noteq> [] \<and> subsystem \<noteq> [] then namespace @ ''_'' @ subsystem @ ''_'' @ name
      else if namespace \<noteq> [] then namespace @ ''_'' @ name
      else if subsystem \<noteq> [] then subsystem @ ''_'' @ name
      else name)"

definition NewDesc :: "string \<Rightarrow> string \<Rightarrow> string list \<Rightarrow> Desc option" where
  "NewDesc fq h labels = Some \<lparr>fqName = fq, helpText = h, variableLabels = labels\<rparr>"

text \<open>
  \<open>MustNewConstMetric\<close> panics (\<open>None\<close>) on a nil descriptor and when the number of label
  values differs from the number of variable labels of the descriptor. Its checks of the
  text of names and values are not represented.
\<close>

definition MustNewConstMetric ::
  "Desc option \<Rightarrow> ValueType \<Rightarrow> float64 \<Rightarrow> string list \<Rightarrow> Metric option" where
  "MustNewConstMetric d valueType v lvs =
     (case d of
        None \<Rightarrow> None
      | Some d' \<Rightarrow>
          if length lvs \<noteq> length (variableLabels d') then None
          else Some \<lparr>desc = d', valType = valueType, val = v, labelValues = lvs\<rparr>)"

subsection \<open>The collector's types\<close>

record gpuCollector =
  gpuMinorNumber :: "Desc option"
  gpuName :: "Desc option"
  gpuUUID :: "Desc option"
  gpuTemperature :: "Desc option"
  gpuPowerUsage :: "Desc option"
  gpuFanSpeed :: "Desc option"
  gpuMemoryTotal :: "Desc option"
  gpuMemoryUsed :: "Desc option"
  gpuUtilizationMemory :: "Desc option"
  gpuUtilizationGPU :: "Desc option"
  gpuUtilizationGPUAverage :: "Desc option"
  logger :: logger

record gpuDevice =
  Index :: string
  MinorNumber :: string
  Name :: string
  UUID :: string
  Temperature :: float64
  PowerUsage :: float64
  FanSpeed :: float64
  MemoryTotal :: float64
  MemoryUsed :: float64
  UtilizationMemory :: float64
  UtilizationGPU :: float64
  UtilizationGPUAverage :: float64

record gpuMetrics =
  Version :: string
  Devices :: "gpuDevice list"

subsection \<open>NewGPUCollector\<close>

text \<open>
  The constant \<open>namespace\<close> is declared in another file of the package and is a parameter
  here. The three descriptors that the constructor does not set stay nil. The collector
  returned is never nil, so the result carries the struct itself.
\<close>

definition gpuLabels :: "string list" where
  "gpuLabels = [''minornumber'', ''name'', ''uuid'', ''system_driver_version'']"

definition NewGPUCollector :: "string \<Rightarrow> logger \<Rightarrow> gpuCollector \<times> error option" where
  "NewGPUCollector namespace lg =
     (let subsystem = ''gpu'' in
      (\<lparr>
         gpuMinorNumber = None,
         gpuName = None,
         gpuUUID = None,
         gpuTemperature =
           NewDesc (BuildFQName namespace subsystem ''Temperature'')
             ''Temperature of GPU device in system'' gpuLabels,
         gpuPowerUsage =
           NewDesc (BuildFQName namespace subsystem ''PowerUsage'')
             ''Power Usage of GPU device in system'' gpuLabels,
         gpuFanSpeed =
           NewDesc (BuildFQName namespace subsystem ''FanSpeed'')
             ''Fan Speed of GPU device in system'' gpuLabels,
         gpuMemoryTotal =
           NewDesc (BuildFQName namespace subsystem ''MemoryTotal_Bytes'')
             ''Memory Total of GPU device in system'' gpuLabels,
         gpuMemoryUsed =
           NewDesc (BuildFQName namespace subsystem ''MemoryUsed_Bytes'')
             ''Memory Used of GPU device in system'' gpuLabels,
         gpuUtilizationMemory =
           NewDesc (BuildFQName namespace subsystem ''UtilizationMemory'')
             ''Utilization Memory of GPU device in system'' gpuLabels,
         gpuUtilizationGPU =
           NewDesc (BuildFQName namespace subsystem ''UtilizationGPU'')
             ''Utilization of GPU device in system'' gpuLabels,
         gpuUtilizationGPUAverage =
           NewDesc (BuildFQName namespace subsystem ''UtilizationGPUAverage'')
             ''Utilization Average of GPU device in system'' gpuLabels,
         logger = lg\<rparr>,
       None))"

subsection \<open>collectMetricDevice\<close>

text \<open>
  A call to the library followed by \<open>if err != nil { return nil, err }\<close>: the call is
  recorded; on an error the round ends with it, otherwise the rest of the round runs with
  the value read.
\<close>

definition call_or_return ::
  "'a \<times> error option \<Rightarrow> gonvml_call \<Rightarrow> ('a \<Rightarrow> (error + 'b) \<times> gonvml_call list) \<Rightarrow>
     (error + 'b) \<times> gonvml_call list" where
  "call_or_return result call rest =
     (case snd result of
        Some e \<Rightarrow> (Inl e, [call])
      | None \<Rightarrow> (let (r, calls) = rest (fst result) in (r, call # calls)))"

text \<open>
  One round of the \<open>for index\<close> loop up to the \<open>append\<close>: the handle and the nine reads in
  the order of the source. The result is the error that ended the round (\<open>Inl\<close>) or the
  device record to append (\<open>Inr\<close>), with the calls made.
\<close>

definition collectMetricDevice_round ::
  "gonvml \<Rightarrow> int \<Rightarrow> (error + gpuDevice) \<times> gonvml_call list" where
  "collectMetricDevice_round api index =
     (let i = (word_of_int index :: uint) in
      call_or_return (DeviceHandleByIndex api i) (CallDeviceHandleByIndex i) (\<lambda>device.
      call_or_return (Device_UUID device) (CallDevice i ReadUUID) (\<lambda>uuid.
      call_or_return (Device_Name device) (CallDevice i ReadName) (\<lambda>name.
      call_or_return (Device_MinorNumber device) (CallDevice i ReadMinorNumber) (\<lambda>minorNumber.
      call_or_return (Device_Temperature device) (CallDevice i ReadTemperature) (\<lambda>temperature.
      call_or_return (Device_PowerUsage device) (CallDevice i ReadPowerUsage) (\<lambda>powerUsage.
      call_or_return (Device_FanSpeed device) (CallDevice i ReadFanSpeed) (\<lambda>fanSpeed.
      call_or_return (Device_MemoryInfo device) (CallDevice i ReadMemoryInfo)
        (\<lambda>(memoryTotal, memoryUsed).
      call_or_return (Device_UtilizationRates device) (CallDevice i ReadUtilizationRates)
        (\<lambda>(utilizationGPU, utilizationMemory).
      call_or_return (Device_AverageGPUUtilization device averageDuration)
        (CallDevice i (ReadAverageGPUUtilization averageDuration)) (\<lambda>utilizationGPUAverage.
      (Inr \<lparr>
         Index = Itoa index,
         MinorNumber = Itoa (sint minorNumber),
         Name = name,
         UUID = uuid,
         Temperature = float64 temperature,
         PowerUsage = float64 powerUsage,
         FanSpeed = float64 fanSpeed,
         MemoryTotal = float64 memoryTotal,
         MemoryUsed = float64 memoryUsed,
         UtilizationMemory = float64 utilizationMemory,
         UtilizationGPU = float64 utilizationGPU,
         UtilizationGPUAverage = float64 utilizationGPUAverage\<rparr>,
       []))))))))))))"

text \<open>
  The loop \<open>for index := 0; index < int(numDevices); index++\<close>; \<open>n\<close> is \<open>int(numDevices)\<close>.
\<close>

function collectMetricDevice_loop ::
  "gonvml \<Rightarrow> int \<Rightarrow> int \<Rightarrow> gpuMetrics \<Rightarrow>
     gpuMetrics option \<times> error option \<times> gonvml_call list" where
  "collectMetricDevice_loop api n index metrics =
     (if index < n then
        (case collectMetricDevice_round api index of
           (Inl e, calls) \<Rightarrow> (None, Some e, calls)
         | (Inr d, calls) \<Rightarrow>
             (let (r, err, calls') =
                    collectMetricDevice_loop api n (index + 1)
                      (metrics\<lparr>Devices := Devices metrics @ [d]\<rparr>)
              in (r, err, calls @ calls')))
      else (Some metrics, None, []))"
  by pat_completeness auto
termination
  by (relation "measure (\<lambda>(api, n, index, metrics). nat (n - index))") auto

declare collectMetricDevice_loop.simps [simp del]

text \<open>
  What runs between \<open>defer gonvml.Shutdown()\<close> and the return of the function.
\<close>

definition collectMetricDevice_deferred ::
  "gonvml \<Rightarrow> gpuMetrics option \<times> error option \<times> gonvml_call list" where
  "collectMetricDevice_deferred api =
     (let (version, err) = SystemDriverVersion api;
          calls = [CallSystemDriverVersion]
      in if err \<noteq> None then (None, err, calls)
         else
           let metrics = \<lparr>Version = version, Devices = []\<rparr>;
               (numDevices, err) = DeviceCount api;
               calls = calls @ [CallDeviceCount]
           in if err \<noteq> None then (None, err, calls)
              else
                let (r, err, calls') = collectMetricDevice_loop api (sint numDevices) 0 metrics
                in (r, err, calls @ calls'))"

text \<open>
  \<open>collectMetricDevice\<close>: when \<open>Initialize\<close> fails the function returns before the
  \<open>defer\<close> statement; otherwise the deferred \<open>Shutdown\<close> runs after the rest of the body,
  whatever that returned, and its own result is dropped.
\<close>

definition collectMetricDevice ::
  "gonvml \<Rightarrow> gpuMetrics option \<times> error option \<times> gonvml_call list" where
  "collectMetricDevice api =
     (case Initialize api of
        Some e \<Rightarrow> (None, Some e, [CallInitialize])
      | None \<Rightarrow>
          (let (r, err, calls) = collectMetricDevice_deferred api
           in (r, err, CallInitialize # calls @ [CallShutdown])))"

subsection \<open>Update\<close>

text \<open>
  The channel is the list of samples sent so far. The eight sends for one device; a panic
  of \<open>MustNewConstMetric\<close> ends the pass (\<open>None\<close>).
\<close>

definition Update_device ::
  "gpuCollector \<Rightarrow> gpuMetrics \<Rightarrow> gpuDevice \<Rightarrow> Metric list \<Rightarrow> Metric list option" where
  "Update_device g gpu metrics ch =
     do {
       m \<leftarrow> MustNewConstMetric (gpuTemperature g) GaugeValue (Temperature metrics)
              [MinorNumber metrics, Name metrics, UUID metrics, Version gpu];
       let ch = ch @ [m];
       m \<leftarrow> MustNewConstMetric (gpuPowerUsage g) GaugeValue (PowerUsage metrics)
              [MinorNumber metrics, Name metrics, UUID metrics, Version gpu];
       let ch = ch @ [m];
       m \<leftarrow> MustNewConstMetric (gpuFanSpeed g) GaugeValue (FanSpeed metrics)
              [MinorNumber metrics, Name metrics, UUID metrics, Version gpu];
       let ch = ch @ [m];
       m \<leftarrow> MustNewConstMetric (gpuMemoryTotal g) CounterValue (MemoryTotal metrics)
              [MinorNumber metrics, Name metrics, UUID metrics, Version gpu];
       let ch = ch @ [m];
       m \<leftarrow> MustNewConstMetric (gpuMemoryUsed g) GaugeValue (MemoryUsed metrics)
              [MinorNumber metrics, Name metrics, UUID metrics, Version gpu];
       let ch = ch @ [m];
       m \<leftarrow> MustNewConstMetric (gpuUtilizationMemory g) GaugeValue (UtilizationMemory metrics)
              [MinorNumber metrics, Name metrics, UUID metrics, Version gpu];
       let ch = ch @ [m];
       m \<leftarrow> MustNewConstMetric (gpuUtilizationGPU g) GaugeValue (UtilizationGPU metrics)
              [MinorNumber metrics, Name metrics, UUID metrics, Version gpu];
       let ch = ch @ [m];
       m \<leftarrow> MustNewConstMetric (gpuUtilizationGPUAverage g) GaugeValue
              (UtilizationGPUAverage metrics)
              [MinorNumber metrics, Name metrics, UUID metrics, Version gpu];
       let ch = ch @ [m];
       Some ch
     }"

fun Update_loop ::
  "gpuCollector \<Rightarrow> gpuMetrics \<Rightarrow> gpuDevice list \<Rightarrow> Metric list \<Rightarrow> Metric list option" where
  "Update_loop g gpu [] ch = Some ch"
| "Update_loop g gpu (metrics # rest) ch =
     (case Update_device g gpu metrics ch of
        None \<Rightarrow> None
      | Some ch' \<Rightarrow> Update_loop g gpu rest ch')"

text \<open>
  \<open>Update\<close> returns its error result, the channel and the logger after the pass, and the
  calls made to the vendor library; \<open>None\<close> is a panic.
\<close>

definition Update ::
  "gonvml \<Rightarrow> gpuCollector \<Rightarrow> Metric list \<Rightarrow>
     (error option \<times> Metric list \<times> logger \<times> gonvml_call list) option" where
  "Update api g ch =
     (let (gpu, err, calls) = collectMetricDevice api in
      if err \<noteq> None then
        Some (None, ch,
          level_Debug_Log (logger g) [(''msg'', ''gpu information is unavailable to collect'')],
          calls)
      else
        case gpu of
          None \<Rightarrow> None
        | Some gpu' \<Rightarrow>
            (case Update_loop g gpu' (Devices gpu') ch of
               None \<Rightarrow> None
             | Some ch' \<Rightarrow> Some (None, ch', logger g, calls)))"

section \<open>Notions used to state the properties\<close>

text \<open>
  The errors of the handle lookup and of the nine reads of the device at one index, in the
  order in which a round makes the calls, and the first of them that is not nil. A round
  stops at that error; the reads after a failed call are not made.
\<close>

definition device_errors :: "gonvml \<Rightarrow> uint \<Rightarrow> error option list" where
  "device_errors api i =
     (let (device, err) = DeviceHandleByIndex api i in
      [err,
       snd (Device_UUID device),
       snd (Device_Name device),
       snd (Device_MinorNumber device),
       snd (Device_Temperature device),
       snd (Device_PowerUsage device),
       snd (Device_FanSpeed device),
       snd (Device_MemoryInfo device),
       snd (Device_UtilizationRates device),
       snd (Device_AverageGPUUtilization device averageDuration)])"

fun first_error :: "error option list \<Rightarrow> error option" where
  "first_error [] = None"
| "first_error (None # es) = first_error es"
| "first_error (Some e # es) = Some e"

definition device_read_error :: "gonvml \<Rightarrow> uint \<Rightarrow> error option" where
  "device_read_error api i = first_error (device_errors api i)"


section \<open>Example environments\<close>

definition healthy_device :: Device where
  "healthy_device =
     \<lparr>Device_UUID = (''GPU-5a1b'', None),
      Device_Name = (''Tesla T4'', None),
      Device_MinorNumber = (0, None),
      Device_Temperature = (41, None),
      Device_PowerUsage = (27000, None),
      Device_FanSpeed = (30, None),
      Device_MemoryInfo = ((16106127360, 1073741824), None),
      Device_UtilizationRates = ((12, 5), None),
      Device_AverageGPUUtilization = (\<lambda>since. (11, None))\<rparr>"

text \<open>Two devices, both readable.\<close>

definition two_devices :: gonvml where
  "two_devices =
     \<lparr>Initialize = None,
      Shutdown = None,
      SystemDriverVersion = (''450.51.06'', None),
      DeviceCount = (2, None),
      DeviceHandleByIndex = (\<lambda>i. (healthy_device\<lparr>Device_MinorNumber := (i, None)\<rparr>, None))\<rparr>"

text \<open>Two devices; the UUID read of device 1 fails.\<close>

definition second_uuid_fails :: gonvml where
  "second_uuid_fails =
     two_devices\<lparr>DeviceHandleByIndex :=
       (\<lambda>i. if i = 1 then (healthy_device\<lparr>Device_UUID := ([], Some (Error ''uuid''))\<rparr>, None)
            else (healthy_device, None))\<rparr>"


text \<open>The library cannot be initialised.\<close>

definition no_driver :: gonvml where
  "no_driver = two_devices\<lparr>Initialize := Some (Error ''could not load NVML library'')\<rparr>"

section \<open>Properties of the network collector\<close>

subsection \<open>Normalisation of one record\<close>

lemma decode_uint64_uint: "decode_uint64 k (JNumber (uint (v::uint64))) = (v, None)"
proof -
  have "uint v < 2 ^ 64" using uint_bounded [of v] by simp
  then show ?thesis by simp
qed

lemma json_Unmarshal_counters:
  "json_Unmarshal (map (\<lambda>(k, v). (k, JNumber (uint v))) cs) m = (m ++ map_of (rev cs), None)"
proof (induction cs arbitrary: m)
  case Nil
  then show ?case by simp
next
  case (Cons c cs)
  obtain k v where c: "c = (k, v)" by (cases c)
  have step: "json_Unmarshal (map (\<lambda>(k, v). (k, JNumber (uint v))) (c # cs)) m =
      json_Unmarshal (map (\<lambda>(k, v). (k, JNumber (uint v))) cs) (m(k \<mapsto> v))"
    by (simp add: c decode_uint64_uint del: decode_uint64.simps)
  have "m(k \<mapsto> v) ++ map_of (rev cs) = m ++ map_of (rev (c # cs))"
    by (simp add: c fun_eq_iff map_add_def split: option.splits)
  then show ?case using Cons.IH [of "m(k \<mapsto> v)"] by (simp only: step)
qed

lemma parseToString_json_Marshal:
  "parseToString json_Marshal data =
     (Some ((Map.empty(''name'' \<mapsto> 0) ++ map_of (rev (IO_Counters data)))(''name'' := None)), None)"
  by (simp add: parseToString_def json_Marshal_def json_Unmarshal_counters)

lemma parseToString_error: "snd (parseToString marshal data) = snd (marshal data)"
  by (simp add: parseToString_def Let_def split: prod.splits)

lemma parseToString_cases:
  "(snd (marshal data) = None \<and> (\<exists>m. parseToString marshal data = (Some m, None))) \<or>
   (\<exists>e. snd (marshal data) = Some e \<and> parseToString marshal data = (None, Some e))"
  by (auto simp add: parseToString_def Let_def split: prod.splits)

text \<open>
  Claim C1. For every interface statistics record whose counter keys are pairwise different
  and different from \<open>name\<close>, \<open>parseToString\<close> with the standard serialisation returns
  a mapping and no error; the key set of the mapping is exactly the set of counter keys,
  every counter is mapped to its unsigned 64-bit value, and the key \<open>name\<close> is absent.
\<close>

theorem parseToString_normalises:
  assumes "wf_IOCountersStat data"
  shows "\<exists>m. parseToString json_Marshal data = (Some m, None) \<and>
           dom m = set (map fst (IO_Counters data)) \<and>
           (\<forall>(k, v) \<in> set (IO_Counters data). m k = Some v) \<and>
           ''name'' \<notin> dom m"
proof -
  let ?cs = "IO_Counters data"
  let ?m = "(Map.empty(''name'' \<mapsto> 0) ++ map_of (rev ?cs))(''name'' := None)"
  from assms have d: "distinct (map fst ?cs)" and n: "''name'' \<notin> set (map fst ?cs)"
    by (simp_all add: wf_IOCountersStat_def)
  have rv: "map_of (rev ?cs) = map_of ?cs"
    using d by (simp add: map_of_inject_set distinct_rev rev_map [symmetric])
  have dm: "dom ?m = set (map fst ?cs)"
    using n by (auto simp add: rv dom_map_of_conv_image_fst)
  have vals: "\<forall>(k, v) \<in> set ?cs. ?m k = Some v"
  proof (clarify)
    fix k v assume kv: "(k, v) \<in> set ?cs"
    then have "k \<in> set (map fst ?cs)" by force
    with n have "k \<noteq> ''name''" by blast
    moreover have "map_of ?cs k = Some v" using d kv by simp
    ultimately show "?m k = Some v" by (simp add: rv map_add_def)
  qed
  have nm: "''name'' \<notin> dom ?m" by simp
  show ?thesis
    unfolding parseToString_json_Marshal using dm vals nm by blast
qed

text \<open>The property at a record with two counters.\<close>

theorem parseToString_normalises_witness:
  "wf_IOCountersStat \<lparr>IO_Name = ''eth0'', IO_Counters = [(''bytesSent'', 100), (''bytesRecv'', 200)]\<rparr> \<and>
   (\<exists>m. parseToString json_Marshal
          \<lparr>IO_Name = ''eth0'', IO_Counters = [(''bytesSent'', 100), (''bytesRecv'', 200)]\<rparr> =
          (Some m, None) \<and>
        dom m = {''bytesSent'', ''bytesRecv''} \<and>
        m ''bytesSent'' = Some 100 \<and> m ''bytesRecv'' = Some 200 \<and> ''name'' \<notin> dom m)"
proof -
  let ?d = "\<lparr>IO_Name = ''eth0'', IO_Counters = [(''bytesSent'', 100 :: uint64), (''bytesRecv'', 200)]\<rparr>"
  have wf: "wf_IOCountersStat ?d" by (simp add: wf_IOCountersStat_def)
  from parseToString_normalises [OF wf] wf show ?thesis by auto
qed

text \<open>
  Claim C10. The error that \<open>parseToString\<close> returns is the error of the serialisation, and
  the result is nil exactly when the serialisation failed. The standard serialisation does
  not fail; decoding its output into the \<open>uint64\<close> map reports a type error for the string
  under \<open>name\<close>, and that error is dropped: \<open>parseToString\<close> still returns a mapping and
  no error, and the mapping has no entry for \<open>name\<close>.
\<close>

theorem parseToString_discards_decode_error:
  "snd (parseToString marshal data) = snd (marshal data) \<and>
   (fst (parseToString marshal data) = None) = (snd (marshal data) \<noteq> None) \<and>
   snd (json_Marshal data) = None \<and>
   snd (json_Unmarshal (fst (json_Marshal data)) Map.empty) =
     Some (UnmarshalTypeError ''string'' ''name'') \<and>
   (\<exists>m. parseToString json_Marshal data = (Some m, None) \<and> ''name'' \<notin> dom m)"
proof -
  have "snd (json_Unmarshal (fst (json_Marshal data)) Map.empty) =
     Some (UnmarshalTypeError ''string'' ''name'')"
    by (simp add: json_Marshal_def json_Unmarshal_counters)
  moreover have "(fst (parseToString marshal data) = None) = (snd (marshal data) \<noteq> None)"
    using parseToString_cases [of marshal data] by auto
  moreover have "snd (json_Marshal data) = None" by (simp add: json_Marshal_def)
  moreover have "\<exists>m. parseToString json_Marshal data = (Some m, None) \<and> ''name'' \<notin> dom m"
    by (simp add: parseToString_json_Marshal)
  ultimately show ?thesis using parseToString_error [of marshal data] by blast
qed

subsection \<open>The loop over the interfaces\<close>

lemma parseNetDevStats_loop_ok:
  assumes "\<forall>r\<in>set ni. \<not> ignored (IO_Name r) \<longrightarrow> snd (marshal r) = None"
  shows "\<exists>m lg. parseNetDevStats_loop marshal ni ignored lg0 netDev = (Some m, None, lg) \<and>
           dom m = dom netDev \<union> {IO_Name r |r. r \<in> set ni \<and> \<not> ignored (IO_Name r)} \<and>
           (\<forall>name. m name =
              (case filter (\<lambda>r. IO_Name r = name \<and> \<not> ignored name) ni of
                 [] \<Rightarrow> netDev name
               | x # xs \<Rightarrow> Some (fst (parseToString marshal (last (x # xs))))))"
  using assms
proof (induction ni arbitrary: lg0 netDev)
  case Nil
  then show ?case by simp
next
  case (Cons r ni)
  from Cons.prems have rest: "\<forall>r\<in>set ni. \<not> ignored (IO_Name r) \<longrightarrow> snd (marshal r) = None"
    by simp
  show ?case
  proof (cases "ignored (IO_Name r)")
    case True
    let ?lg = "level_Debug_Log lg0 [(''msg'', ''Ignoring device''), (''device'', IO_Name r)]"
    from Cons.IH [OF rest, of ?lg netDev] obtain m lg where
      run: "parseNetDevStats_loop marshal ni ignored ?lg netDev = (Some m, None, lg)" and
      dm: "dom m = dom netDev \<union> {IO_Name r |r. r \<in> set ni \<and> \<not> ignored (IO_Name r)}" and
      lk: "\<forall>name. m name =
              (case filter (\<lambda>r. IO_Name r = name \<and> \<not> ignored name) ni of
                 [] \<Rightarrow> netDev name
               | x # xs \<Rightarrow> Some (fst (parseToString marshal (last (x # xs)))))"
      by blast
    have "parseNetDevStats_loop marshal (r # ni) ignored lg0 netDev = (Some m, None, lg)"
      using True run by simp
    moreover have "dom m = dom netDev \<union> {IO_Name x |x. x \<in> set (r # ni) \<and> \<not> ignored (IO_Name x)}"
      using True dm by auto
    moreover have "\<forall>name. m name =
              (case filter (\<lambda>x. IO_Name x = name \<and> \<not> ignored name) (r # ni) of
                 [] \<Rightarrow> netDev name
               | x # xs \<Rightarrow> Some (fst (parseToString marshal (last (x # xs)))))"
      using True lk by auto
    ultimately show ?thesis by blast
  next
    case False
    with Cons.prems have ok: "snd (marshal r) = None" by simp
    then obtain st where st: "parseToString marshal r = (Some st, None)"
      using parseToString_cases [of marshal r] by auto
    let ?nd = "netDev(IO_Name r \<mapsto> Some st)"
    from Cons.IH [OF rest, of lg0 ?nd] obtain m lg where
      run: "parseNetDevStats_loop marshal ni ignored lg0 ?nd = (Some m, None, lg)" and
      dm: "dom m = dom ?nd \<union> {IO_Name r |r. r \<in> set ni \<and> \<not> ignored (IO_Name r)}" and
      lk: "\<forall>name. m name =
              (case filter (\<lambda>r. IO_Name r = name \<and> \<not> ignored name) ni of
                 [] \<Rightarrow> ?nd name
               | x # xs \<Rightarrow> Some (fst (parseToString marshal (last (x # xs)))))"
      by blast
    have "parseNetDevStats_loop marshal (r # ni) ignored lg0 netDev = (Some m, None, lg)"
      using False run st by simp
    moreover have "dom m = dom netDev \<union> {IO_Name x |x. x \<in> set (r # ni) \<and> \<not> ignored (IO_Name x)}"
      using False dm by auto
    moreover have "\<forall>name. m name =
              (case filter (\<lambda>x. IO_Name x = name \<and> \<not> ignored name) (r # ni) of
                 [] \<Rightarrow> netDev name
               | x # xs \<Rightarrow> Some (fst (parseToString marshal (last (x # xs)))))"
    proof
      fix name
      show "m name =
              (case filter (\<lambda>x. IO_Name x = name \<and> \<not> ignored name) (r # ni) of
                 [] \<Rightarrow> netDev name
               | x # xs \<Rightarrow> Some (fst (parseToString marshal (last (x # xs)))))"
        using lk [rule_format, of name] False st
        by (cases "filter (\<lambda>r. IO_Name r = name \<and> \<not> ignored name) ni") auto
    qed
    ultimately show ?thesis by blast
  qed
qed

lemma parseNetDevStats_loop_fail:
  assumes "find (\<lambda>r. \<not> ignored (IO_Name r) \<and> snd (marshal r) \<noteq> None) ni = Some r"
  shows "\<exists>lg. parseNetDevStats_loop marshal ni ignored lg0 netDev = (None, snd (marshal r), lg)"
  using assms
proof (induction ni arbitrary: lg0 netDev)
  case Nil
  then show ?case by simp
next
  case (Cons x ni)
  show ?case
  proof (cases "ignored (IO_Name x)")
    case True
    with Cons.prems have "find (\<lambda>r. \<not> ignored (IO_Name r) \<and> snd (marshal r) \<noteq> None) ni = Some r"
      by simp
    from Cons.IH [OF this] show ?thesis using True by simp
  next
    case False
    show ?thesis
    proof (cases "snd (marshal x) = None")
      case True
      then obtain st where st: "parseToString marshal x = (Some st, None)"
        using parseToString_cases [of marshal x] by auto
      from True Cons.prems have "find (\<lambda>r. \<not> ignored (IO_Name r) \<and> snd (marshal r) \<noteq> None) ni = Some r"
        by simp
      from Cons.IH [OF this] show ?thesis using False st by simp
    next
      case bad: False
      with False Cons.prems have rx: "r = x" by simp
      from bad obtain e where "snd (marshal x) = Some e" "parseToString marshal x = (None, Some e)"
        using parseToString_cases [of marshal x] by auto
      then show ?thesis using False rx by simp
    qed
  qed
qed

lemma parseNetDevStats_loop_all_or_nothing:
  "fst (snd (parseNetDevStats_loop marshal ni ignored lg0 netDev)) \<noteq> None \<Longrightarrow>
   fst (parseNetDevStats_loop marshal ni ignored lg0 netDev) = None"
proof (induction ni arbitrary: lg0 netDev)
  case Nil
  then show ?case by simp
next
  case (Cons x ni)
  then show ?case
    by (cases "ignored (IO_Name x)") (auto simp add: Let_def split: prod.splits if_splits)
qed

lemma parseNetDevStats_loop_cong:
  assumes "\<forall>r\<in>set ni. \<not> ignored (IO_Name r) \<longrightarrow> marshal' r = marshal r"
  shows "parseNetDevStats_loop marshal' ni ignored lg0 netDev =
         parseNetDevStats_loop marshal ni ignored lg0 netDev"
  using assms
proof (induction ni arbitrary: lg0 netDev)
  case Nil
  then show ?case by simp
next
  case (Cons x ni)
  from Cons.prems have rest: "\<forall>r\<in>set ni. \<not> ignored (IO_Name r) \<longrightarrow> marshal' r = marshal r"
    by simp
  show ?case
  proof (cases "ignored (IO_Name x)")
    case True
    then show ?thesis using Cons.IH [OF rest] by simp
  next
    case False
    with Cons.prems have "marshal' x = marshal x" by simp
    then have eq: "parseToString marshal' x = parseToString marshal x"
      by (simp add: parseToString_def)
    obtain st err where p: "parseToString marshal x = (st, err)"
      by (cases "parseToString marshal x")
    show ?thesis
      using False Cons.IH [OF rest, of lg0 "netDev(IO_Name x \<mapsto> st)"]
      by (simp only: parseNetDevStats_loop.simps Let_def eq p prod.case if_False)
  qed
qed

text \<open>
  Claim C2. When the serialisation succeeds on every record that the filter keeps,
  \<open>parseNetDevStats\<close> returns a map and no error; the keys of the map are exactly the names
  of the records whose name the filter does not ignore, so no ignored name is a key. The
  filter is asked before the record is normalised: the result does not depend on what the
  serialisation would do on an ignored record, even if it would fail there.
\<close>

theorem parseNetDevStats_keys:
  assumes "\<forall>r\<in>set ni. \<not> ignored (IO_Name r) \<longrightarrow> snd (marshal r) = None"
  shows "(\<exists>m lg. parseNetDevStats marshal ni ignored lg0 = (Some m, None, lg) \<and>
            dom m = set (map IO_Name (filter (\<lambda>r. \<not> ignored (IO_Name r)) ni)) \<and>
            (\<forall>name. ignored name \<longrightarrow> name \<notin> dom m)) \<and>
         (\<forall>marshal'. (\<forall>r\<in>set ni. \<not> ignored (IO_Name r) \<longrightarrow> marshal' r = marshal r) \<longrightarrow>
            parseNetDevStats marshal' ni ignored lg0 = parseNetDevStats marshal ni ignored lg0)"
proof -
  from parseNetDevStats_loop_ok [OF assms, of lg0 Map.empty] obtain m lg where
    run: "parseNetDevStats marshal ni ignored lg0 = (Some m, None, lg)" and
    dm': "dom m = dom (Map.empty :: netDevStats) \<union> {IO_Name r |r. r \<in> set ni \<and> \<not> ignored (IO_Name r)}"
    by (auto simp add: parseNetDevStats_def)
  from dm' have dm: "dom m = set (map IO_Name (filter (\<lambda>r. \<not> ignored (IO_Name r)) ni))"
    by auto
  from dm have "\<forall>name. ignored name \<longrightarrow> name \<notin> dom m" by auto
  with run dm have first: "\<exists>m lg. parseNetDevStats marshal ni ignored lg0 = (Some m, None, lg) \<and>
            dom m = set (map IO_Name (filter (\<lambda>r. \<not> ignored (IO_Name r)) ni)) \<and>
            (\<forall>name. ignored name \<longrightarrow> name \<notin> dom m)"
    by blast
  have "\<forall>marshal'. (\<forall>r\<in>set ni. \<not> ignored (IO_Name r) \<longrightarrow> marshal' r = marshal r) \<longrightarrow>
            parseNetDevStats marshal' ni ignored lg0 = parseNetDevStats marshal ni ignored lg0"
    by (simp add: parseNetDevStats_def parseNetDevStats_loop_cong)
  with first show ?thesis by blast
qed

text \<open>
  The scenario of the specification: the filter ignores \<open>lo\<close>, the platform reports
  \<open>eth0\<close> and \<open>lo\<close>. Here the serialisation even fails on \<open>lo\<close>, and the pass succeeds
  with \<open>eth0\<close> as its only key, with the same result as under the standard serialisation.
\<close>

theorem parseNetDevStats_keys_witness:
  "\<exists>m lg. parseNetDevStats
      (\<lambda>r. if IO_Name r = ''lo'' then ([], Some (Error ''unsupported value'')) else json_Marshal r)
      [\<lparr>IO_Name = ''eth0'', IO_Counters = [(''bytes_sent'', 100), (''bytes_recv'', 200)]\<rparr>,
       \<lparr>IO_Name = ''lo'', IO_Counters = [(''bytes_sent'', 7), (''bytes_recv'', 7)]\<rparr>]
      (\<lambda>name. name = ''lo'') [] = (Some m, None, lg) \<and>
     dom m = {''eth0''} \<and> ''lo'' \<notin> dom m \<and>
     parseNetDevStats json_Marshal
       [\<lparr>IO_Name = ''eth0'', IO_Counters = [(''bytes_sent'', 100), (''bytes_recv'', 200)]\<rparr>,
        \<lparr>IO_Name = ''lo'', IO_Counters = [(''bytes_sent'', 7), (''bytes_recv'', 7)]\<rparr>]
       (\<lambda>name. name = ''lo'') [] = (Some m, None, lg)"
proof -
  let ?marshal = "\<lambda>r. if IO_Name r = ''lo'' then ([], Some (Error ''unsupported value''))
                      else json_Marshal r"
  let ?ni = "[\<lparr>IO_Name = ''eth0'', IO_Counters = [(''bytes_sent'', 100 :: uint64), (''bytes_recv'', 200)]\<rparr>,
       \<lparr>IO_Name = ''lo'', IO_Counters = [(''bytes_sent'', 7), (''bytes_recv'', 7)]\<rparr>]"
  let ?ignored = "\<lambda>name. name = ''lo''"
  have h: "\<forall>r\<in>set ?ni. \<not> ?ignored (IO_Name r) \<longrightarrow> snd (?marshal r) = None"
    by (simp add: json_Marshal_def)
  from parseNetDevStats_keys [OF h, of "[]"] obtain m lg where
    run: "parseNetDevStats ?marshal ?ni ?ignored [] = (Some m, None, lg)" and
    dm: "dom m = set (map IO_Name (filter (\<lambda>r. \<not> ?ignored (IO_Name r)) ?ni))"
    by blast
  from dm have d: "dom m = {''eth0''}" by simp
  have agree: "\<forall>r\<in>set ?ni. \<not> ?ignored (IO_Name r) \<longrightarrow> json_Marshal r = ?marshal r"
    by simp
  from parseNetDevStats_keys [OF h, of "[]"]
  have "\<forall>marshal'. (\<forall>r\<in>set ?ni. \<not> ?ignored (IO_Name r) \<longrightarrow> marshal' r = ?marshal r) \<longrightarrow>
          parseNetDevStats marshal' ?ni ?ignored [] = parseNetDevStats ?marshal ?ni ?ignored []"
    by (rule conjunct2)
  then have "(\<forall>r\<in>set ?ni. \<not> ?ignored (IO_Name r) \<longrightarrow> json_Marshal r = ?marshal r) \<longrightarrow>
          parseNetDevStats json_Marshal ?ni ?ignored [] = parseNetDevStats ?marshal ?ni ?ignored []"
    by (rule spec)
  from this agree have "parseNetDevStats json_Marshal ?ni ?ignored [] =
      parseNetDevStats ?marshal ?ni ?ignored []"
    by (rule mp)
  with run have std: "parseNetDevStats json_Marshal ?ni ?ignored [] = (Some m, None, lg)"
    by (simp only:)
  have nl: "''lo'' \<notin> dom m" using d by simp
  from run d nl std show ?thesis by blast
qed

text \<open>
  Claim C9. With the standard serialisation \<open>parseNetDevStats\<close> never fails, and under the
  name of every record that the filter keeps the result holds the normalised statistics of
  the last record of the input that carries this name.
\<close>

theorem parseNetDevStats_last_seen_wins:
  assumes "r \<in> set ni" and "\<not> ignored (IO_Name r)"
  shows "\<exists>m lg. parseNetDevStats json_Marshal ni ignored lg0 = (Some m, None, lg) \<and>
           m (IO_Name r) =
             Some (fst (parseToString json_Marshal (last (filter (\<lambda>x. IO_Name x = IO_Name r) ni))))"
proof -
  have ok: "\<forall>r\<in>set ni. \<not> ignored (IO_Name r) \<longrightarrow> snd (json_Marshal r) = None"
    by (simp add: json_Marshal_def)
  from parseNetDevStats_loop_ok [OF ok, of lg0 Map.empty] obtain m lg where
    run: "parseNetDevStats json_Marshal ni ignored lg0 = (Some m, None, lg)" and
    lk: "\<forall>name. m name =
              (case filter (\<lambda>r. IO_Name r = name \<and> \<not> ignored name) ni of
                 [] \<Rightarrow> None
               | x # xs \<Rightarrow> Some (fst (parseToString json_Marshal (last (x # xs)))))"
    by (auto simp add: parseNetDevStats_def)
  have f: "filter (\<lambda>x. IO_Name x = IO_Name r \<and> \<not> ignored (IO_Name r)) ni =
           filter (\<lambda>x. IO_Name x = IO_Name r) ni"
    using assms(2) by simp
  have "r \<in> set (filter (\<lambda>x. IO_Name x = IO_Name r) ni)" using assms(1) by simp
  then obtain y ys where ne: "filter (\<lambda>x. IO_Name x = IO_Name r) ni = y # ys"
    by (cases "filter (\<lambda>x. IO_Name x = IO_Name r) ni") auto
  have "m (IO_Name r) =
      Some (fst (parseToString json_Marshal (last (filter (\<lambda>x. IO_Name x = IO_Name r) ni))))"
    using lk [rule_format, of "IO_Name r"] by (simp only: f ne list.case)
  with run show ?thesis by blast
qed

text \<open>Two records named \<open>eth0\<close>: the counters of the second one are the ones kept.\<close>

theorem parseNetDevStats_last_seen_wins_witness:
  "\<exists>m lg. parseNetDevStats json_Marshal
      [\<lparr>IO_Name = ''eth0'', IO_Counters = [(''bytesSent'', 1)]\<rparr>,
       \<lparr>IO_Name = ''eth0'', IO_Counters = [(''bytesSent'', 2)]\<rparr>]
      (\<lambda>name. name = ''lo'') [] = (Some m, None, lg) \<and>
     (\<exists>s. m ''eth0'' = Some (Some s) \<and> s ''bytesSent'' = Some 2)"
proof -
  let ?a = "\<lparr>IO_Name = ''eth0'', IO_Counters = [(''bytesSent'', 1 :: uint64)]\<rparr>"
  let ?b = "\<lparr>IO_Name = ''eth0'', IO_Counters = [(''bytesSent'', 2 :: uint64)]\<rparr>"
  have h1: "?a \<in> set [?a, ?b]" by simp
  have h2: "\<not> (\<lambda>name. name = ''lo'') (IO_Name ?a)" by simp
  from parseNetDevStats_last_seen_wins [of ?a "[?a, ?b]" "\<lambda>name. name = ''lo''" "[]", OF h1 h2]
  show ?thesis by (auto simp add: parseToString_json_Marshal)
qed

text \<open>
  Claim C6. If the platform query fails, \<open>getNetDevStats\<close> returns a nil map and the error
  of the query. If the query succeeds and \<open>r\<close> is the first kept record whose serialisation
  fails, the pass returns a nil map and the error of that serialisation. Whenever the pass
  returns an error, the map it returns is nil.
\<close>

theorem getNetDevStats_all_or_nothing:
  "(snd (net_IOCounters True) = Some e \<longrightarrow>
      getNetDevStats net_IOCounters marshal ignored lg0 = (None, Some e, lg0)) \<and>
   (snd (net_IOCounters True) = None \<and>
    find (\<lambda>r. \<not> ignored (IO_Name r) \<and> snd (marshal r) \<noteq> None) (fst (net_IOCounters True)) = Some r \<longrightarrow>
      snd (marshal r) \<noteq> None \<and>
      (\<exists>lg. getNetDevStats net_IOCounters marshal ignored lg0 = (None, snd (marshal r), lg))) \<and>
   (fst (snd (getNetDevStats net_IOCounters marshal ignored lg0)) \<noteq> None \<longrightarrow>
      fst (getNetDevStats net_IOCounters marshal ignored lg0) = None)"
proof (intro conjI impI)
  assume "snd (net_IOCounters True) = Some e"
  then show "getNetDevStats net_IOCounters marshal ignored lg0 = (None, Some e, lg0)"
    by (cases "net_IOCounters True") (simp add: getNetDevStats_def)
next
  assume a: "snd (net_IOCounters True) = None \<and>
    find (\<lambda>r. \<not> ignored (IO_Name r) \<and> snd (marshal r) \<noteq> None) (fst (net_IOCounters True)) = Some r"
  then show "snd (marshal r) \<noteq> None" by (auto simp add: find_Some_iff)
  from a parseNetDevStats_loop_fail [of ignored marshal "fst (net_IOCounters True)" r lg0 Map.empty]
  show "\<exists>lg. getNetDevStats net_IOCounters marshal ignored lg0 = (None, snd (marshal r), lg)"
    by (auto simp add: getNetDevStats_def parseNetDevStats_def split: prod.splits)
next
  assume "fst (snd (getNetDevStats net_IOCounters marshal ignored lg0)) \<noteq> None"
  then show "fst (getNetDevStats net_IOCounters marshal ignored lg0) = None"
    using parseNetDevStats_loop_all_or_nothing [of marshal "fst (net_IOCounters True)" ignored lg0 Map.empty]
    by (auto simp add: getNetDevStats_def parseNetDevStats_def split: prod.splits if_splits)
qed

text \<open>A failing platform query, and a pass in which the second record cannot be serialised.\<close>

theorem getNetDevStats_all_or_nothing_witness:
  "getNetDevStats (\<lambda>pernic. ([], Some (Error ''query failed''))) json_Marshal (\<lambda>name. False) [] =
     (None, Some (Error ''query failed''), []) \<and>
   (\<exists>lg. getNetDevStats
      (\<lambda>pernic. ([\<lparr>IO_Name = ''eth0'', IO_Counters = [(''bytesSent'', 1)]\<rparr>,
                   \<lparr>IO_Name = ''eth1'', IO_Counters = [(''bytesSent'', 2)]\<rparr>], None))
      (\<lambda>r. if IO_Name r = ''eth1'' then ([], Some (Error ''unsupported value''))
           else json_Marshal r)
      (\<lambda>name. False) [] = (None, Some (Error ''unsupported value''), lg))"
proof -
  let ?a = "\<lparr>IO_Name = ''eth0'', IO_Counters = [(''bytesSent'', 1 :: uint64)]\<rparr>"
  let ?b = "\<lparr>IO_Name = ''eth1'', IO_Counters = [(''bytesSent'', 2 :: uint64)]\<rparr>"
  let ?marshal = "\<lambda>r. if IO_Name r = ''eth1'' then ([], Some (Error ''unsupported value''))
           else json_Marshal r"
  have 1: "getNetDevStats (\<lambda>pernic. ([], Some (Error ''query failed''))) json_Marshal
      (\<lambda>name. False) [] = (None, Some (Error ''query failed''), [])"
    using getNetDevStats_all_or_nothing
      [where net_IOCounters = "\<lambda>pernic. ([], Some (Error ''query failed''))"
        and e = "Error ''query failed''" and marshal = json_Marshal
        and ignored = "\<lambda>name. False" and ?lg0.0 = "[]"]
    by simp
  have 2: "\<exists>lg. getNetDevStats (\<lambda>pernic. ([?a, ?b], None)) ?marshal (\<lambda>name. False) [] =
      (None, Some (Error ''unsupported value''), lg)"
    using getNetDevStats_all_or_nothing
      [where net_IOCounters = "\<lambda>pernic. ([?a, ?b], None)" and marshal = ?marshal
        and ignored = "\<lambda>name. False" and r = ?b and ?lg0.0 = "[]"]
    by (simp add: json_Marshal_def)
  from 1 2 show ?thesis by blast
qed

section \<open>Properties of the GPU collector\<close>

subsection \<open>One round and the loop\<close>

lemma call_or_return_fst:
  "fst (call_or_return result call rest) =
     (case snd result of Some e \<Rightarrow> Inl e | None \<Rightarrow> fst (rest (fst result)))"
  by (simp add: call_or_return_def split: option.splits prod.splits)

lemma round_result:
  "fst (collectMetricDevice_round api index) =
     (case device_read_error api (word_of_int index) of
        Some e \<Rightarrow> Inl e
      | None \<Rightarrow>
          (let device = fst (DeviceHandleByIndex api (word_of_int index)) in
           Inr \<lparr>
             Index = Itoa index,
             MinorNumber = Itoa (sint (fst (Device_MinorNumber device))),
             Name = fst (Device_Name device),
             UUID = fst (Device_UUID device),
             Temperature = float64 (fst (Device_Temperature device)),
             PowerUsage = float64 (fst (Device_PowerUsage device)),
             FanSpeed = float64 (fst (Device_FanSpeed device)),
             MemoryTotal = float64 (fst (fst (Device_MemoryInfo device))),
             MemoryUsed = float64 (snd (fst (Device_MemoryInfo device))),
             UtilizationMemory = float64 (snd (fst (Device_UtilizationRates device))),
             UtilizationGPU = float64 (fst (fst (Device_UtilizationRates device))),
             UtilizationGPUAverage =
               float64 (fst (Device_AverageGPUUtilization device averageDuration))\<rparr>))"
  by (simp add: collectMetricDevice_round_def call_or_return_fst device_read_error_def
      device_errors_def Let_def split: option.splits prod.splits)

lemma round_calls:
  "set (snd (collectMetricDevice_round api index)) \<subseteq>
     insert (CallDeviceHandleByIndex (word_of_int index)) (range (CallDevice (word_of_int index)))"
  by (auto simp add: collectMetricDevice_round_def call_or_return_def Let_def
      split: option.splits prod.splits)

lemma round_no_lifecycle:
  "c = CallInitialize \<or> c = CallShutdown \<Longrightarrow>
   c \<notin> set (snd (collectMetricDevice_round api index))"
  using round_calls [of api index] by auto

lemma loop_done:
  "\<not> index < n \<Longrightarrow> collectMetricDevice_loop api n index metrics = (Some metrics, None, [])"
  by (subst collectMetricDevice_loop.simps) simp

lemma loop_Inl:
  "index < n \<Longrightarrow> collectMetricDevice_round api index = (Inl e, calls) \<Longrightarrow>
   collectMetricDevice_loop api n index metrics = (None, Some e, calls)"
  by (subst collectMetricDevice_loop.simps) simp

lemma loop_Inr:
  "index < n \<Longrightarrow> collectMetricDevice_round api index = (Inr d, calls) \<Longrightarrow>
   collectMetricDevice_loop api n (index + 1) (metrics\<lparr>Devices := Devices metrics @ [d]\<rparr>) =
     (r, err, calls') \<Longrightarrow>
   collectMetricDevice_loop api n index metrics = (r, err, calls @ calls')"
  by (subst collectMetricDevice_loop.simps) simp

lemma loop_all_or_nothing:
  "(\<exists>m calls. collectMetricDevice_loop api n index metrics = (Some m, None, calls)) \<or>
   (\<exists>e calls. collectMetricDevice_loop api n index metrics = (None, Some e, calls))"
proof (induction api n index metrics rule: collectMetricDevice_loop.induct)
  case (1 api n index metrics)
  show ?case
  proof (cases "index < n")
    case False
    then show ?thesis by (simp add: loop_done)
  next
    case True
    obtain r calls where rd: "collectMetricDevice_round api index = (r, calls)"
      by (cases "collectMetricDevice_round api index")
    show ?thesis
    proof (cases r)
      case (Inl e)
      then show ?thesis using loop_Inl [OF True, of api e calls metrics] rd by simp
    next
      case (Inr d)
      obtain r' err calls' where rec:
        "collectMetricDevice_loop api n (index + 1) (metrics\<lparr>Devices := Devices metrics @ [d]\<rparr>) =
           (r', err, calls')"
        by (cases "collectMetricDevice_loop api n (index + 1) (metrics\<lparr>Devices := Devices metrics @ [d]\<rparr>)")
      from rd Inr have rd': "collectMetricDevice_round api index = (Inr d, calls)" by simp
      from "1.IH" [OF True rd [symmetric] Inr] rec
      show ?thesis by (auto simp add: loop_Inr [OF True rd' rec])
    qed
  qed
qed

lemma loop_no_lifecycle:
  assumes c: "c = CallInitialize \<or> c = CallShutdown"
  shows "c \<notin> set (snd (snd (collectMetricDevice_loop api n index metrics)))"
proof (induction api n index metrics rule: collectMetricDevice_loop.induct)
  case (1 api n index metrics)
  show ?case
  proof (cases "index < n")
    case False
    then show ?thesis by (simp add: loop_done)
  next
    case True
    obtain r calls where rd: "collectMetricDevice_round api index = (r, calls)"
      by (cases "collectMetricDevice_round api index")
    have nc: "c \<notin> set calls" using round_no_lifecycle [OF c, of api index] rd by simp
    show ?thesis
    proof (cases r)
      case (Inl e)
      then show ?thesis using loop_Inl [OF True, of api e calls metrics] rd nc by simp
    next
      case (Inr d)
      obtain r' err calls' where rec:
        "collectMetricDevice_loop api n (index + 1) (metrics\<lparr>Devices := Devices metrics @ [d]\<rparr>) =
           (r', err, calls')"
        by (cases "collectMetricDevice_loop api n (index + 1) (metrics\<lparr>Devices := Devices metrics @ [d]\<rparr>)")
      from rd Inr have rd': "collectMetricDevice_round api index = (Inr d, calls)" by simp
      from "1.IH" [OF True rd [symmetric] Inr] rec nc
      show ?thesis by (simp add: loop_Inr [OF True rd' rec])
    qed
  qed
qed

lemma loop_first_error:
  assumes "index \<le> k" and "k < n"
    and "\<forall>j. index \<le> j \<and> j < k \<longrightarrow> device_read_error api (word_of_int j) = None"
    and "device_read_error api (word_of_int k) = Some e"
  shows "\<exists>calls. collectMetricDevice_loop api n index metrics = (None, Some e, calls)"
  using assms
proof (induction api n index metrics rule: collectMetricDevice_loop.induct)
  case (1 api n index metrics)
  from "1.prems" have lt: "index < n" by simp
  obtain r calls where rd: "collectMetricDevice_round api index = (r, calls)"
    by (cases "collectMetricDevice_round api index")
  show ?case
  proof (cases "index = k")
    case True
    with "1.prems"(4) have "fst (collectMetricDevice_round api index) = Inl e"
      by (simp add: round_result)
    with rd have "collectMetricDevice_round api index = (Inl e, calls)" by simp
    from loop_Inl [OF lt this] show ?thesis by blast
  next
    case False
    with "1.prems" have le: "index + 1 \<le> k" and ok: "device_read_error api (word_of_int index) = None"
      by simp_all
    from ok rd obtain d where Inr: "r = Inr d"
      using round_result [of api index] by (cases r) (simp_all add: Let_def)
    from "1.prems"(3) have rest:
      "\<forall>j. index + 1 \<le> j \<and> j < k \<longrightarrow> device_read_error api (word_of_int j) = None"
      by simp
    from rd Inr have rd': "collectMetricDevice_round api index = (Inr d, calls)" by simp
    from "1.IH" [OF lt rd [symmetric] Inr le "1.prems"(2) rest "1.prems"(4)]
    obtain calls' where
      "collectMetricDevice_loop api n (index + 1) (metrics\<lparr>Devices := Devices metrics @ [d]\<rparr>) =
         (None, Some e, calls')" by blast
    from loop_Inr [OF lt rd' this] show ?thesis by blast
  qed
qed

lemma loop_fails:
  assumes "index \<le> k" and "k < n" and "device_read_error api (word_of_int k) \<noteq> None"
  shows "\<exists>e calls. collectMetricDevice_loop api n index metrics = (None, Some e, calls)"
  using assms
proof (induction api n index metrics rule: collectMetricDevice_loop.induct)
  case (1 api n index metrics)
  from "1.prems" have lt: "index < n" by simp
  obtain r calls where rd: "collectMetricDevice_round api index = (r, calls)"
    by (cases "collectMetricDevice_round api index")
  show ?case
  proof (cases r)
    case (Inl e)
    with rd have "collectMetricDevice_round api index = (Inl e, calls)" by simp
    from loop_Inl [OF lt this] show ?thesis by blast
  next
    case (Inr d)
    have "index \<noteq> k"
    proof
      assume "index = k"
      with "1.prems"(3) obtain e where "device_read_error api (word_of_int index) = Some e"
        by auto
      then have "fst (collectMetricDevice_round api index) = Inl e" by (simp add: round_result)
      with rd Inr show False by simp
    qed
    with "1.prems" have le: "index + 1 \<le> k" by simp
    from rd Inr have rd': "collectMetricDevice_round api index = (Inr d, calls)" by simp
    from "1.IH" [OF lt rd [symmetric] Inr le "1.prems"(2,3)]
    obtain e calls' where
      "collectMetricDevice_loop api n (index + 1) (metrics\<lparr>Devices := Devices metrics @ [d]\<rparr>) =
         (None, Some e, calls')" by blast
    from loop_Inr [OF lt rd' this] show ?thesis by blast
  qed
qed

subsection \<open>The whole pass\<close>

lemma deferred_cases:
  "(\<exists>e. snd (SystemDriverVersion api) = Some e \<and>
        collectMetricDevice_deferred api = (None, Some e, [CallSystemDriverVersion])) \<or>
   (snd (SystemDriverVersion api) = None \<and>
      (\<exists>e. snd (DeviceCount api) = Some e \<and>
        collectMetricDevice_deferred api =
          (None, Some e, [CallSystemDriverVersion, CallDeviceCount]))) \<or>
   (snd (SystemDriverVersion api) = None \<and> snd (DeviceCount api) = None \<and>
      (\<exists>r err calls.
         collectMetricDevice_loop api (sint (fst (DeviceCount api))) 0
           \<lparr>Version = fst (SystemDriverVersion api), Devices = []\<rparr> = (r, err, calls) \<and>
         collectMetricDevice_deferred api =
           (r, err, [CallSystemDriverVersion, CallDeviceCount] @ calls)))"
  by (cases "SystemDriverVersion api"; cases "DeviceCount api")
     (auto simp add: collectMetricDevice_deferred_def Let_def split: prod.splits)

lemma deferred_no_lifecycle:
  assumes c: "c = CallInitialize \<or> c = CallShutdown"
  shows "c \<notin> set (snd (snd (collectMetricDevice_deferred api)))"
  using deferred_cases [of api] c
    loop_no_lifecycle [OF c, of api "sint (fst (DeviceCount api))" 0
      "\<lparr>Version = fst (SystemDriverVersion api), Devices = []\<rparr>"]
  by auto

lemma deferred_all_or_nothing:
  "(\<exists>m calls. collectMetricDevice_deferred api = (Some m, None, calls)) \<or>
   (\<exists>e calls. collectMetricDevice_deferred api = (None, Some e, calls))"
  using deferred_cases [of api]
    loop_all_or_nothing [of api "sint (fst (DeviceCount api))" 0
      "\<lparr>Version = fst (SystemDriverVersion api), Devices = []\<rparr>"]
  by auto

lemma collect_init_failed:
  "Initialize api = Some e \<Longrightarrow> collectMetricDevice api = (None, Some e, [CallInitialize])"
  by (simp add: collectMetricDevice_def)

lemma collect_init_ok:
  "Initialize api = None \<Longrightarrow> collectMetricDevice_deferred api = (r, err, calls) \<Longrightarrow>
   collectMetricDevice api = (r, err, CallInitialize # calls @ [CallShutdown])"
  by (simp add: collectMetricDevice_def)

lemma collect_all_or_nothing:
  "(\<exists>m calls. collectMetricDevice api = (Some m, None, calls)) \<or>
   (\<exists>e calls. collectMetricDevice api = (None, Some e, calls))"
proof (cases "Initialize api")
  case (Some e)
  then show ?thesis by (simp add: collect_init_failed)
next
  case None
  from deferred_all_or_nothing [of api] show ?thesis
    by (auto simp add: collect_init_ok [OF None])
qed

lemma deferred_read_fails:
  assumes "0 \<le> k" and "k < sint (fst (DeviceCount api))"
    and "device_read_error api (word_of_int k) \<noteq> None"
  shows "\<exists>e calls. collectMetricDevice_deferred api = (None, Some e, calls)"
  using deferred_cases [of api]
    loop_fails [OF assms, of "\<lparr>Version = fst (SystemDriverVersion api), Devices = []\<rparr>"]
  by auto

lemma deferred_first_error:
  assumes "snd (SystemDriverVersion api) = None" and "snd (DeviceCount api) = None"
    and "0 \<le> k" and "k < sint (fst (DeviceCount api))"
    and "\<forall>j. 0 \<le> j \<and> j < k \<longrightarrow> device_read_error api (word_of_int j) = None"
    and "device_read_error api (word_of_int k) = Some e"
  shows "\<exists>calls. collectMetricDevice_deferred api = (None, Some e, calls)"
  using deferred_cases [of api] assms(1,2)
    loop_first_error [OF assms(3-6), of "\<lparr>Version = fst (SystemDriverVersion api), Devices = []\<rparr>"]
  by auto

lemma second_uuid_fails_error: "device_read_error second_uuid_fails 1 = Some (Error ''uuid'')"
  by (simp add: device_read_error_def device_errors_def second_uuid_fails_def two_devices_def
      healthy_device_def)

lemma second_uuid_fails_facts:
  "Initialize second_uuid_fails = None"
  "snd (SystemDriverVersion second_uuid_fails) = None"
  "snd (DeviceCount second_uuid_fails) = None"
  "(1::int) < sint (fst (DeviceCount second_uuid_fails))"
  "\<forall>j::int. 0 \<le> j \<and> j < 1 \<longrightarrow> device_read_error second_uuid_fails (word_of_int j) = None"
  "device_read_error second_uuid_fails (word_of_int 1) = Some (Error ''uuid'')"
proof -
  show "Initialize second_uuid_fails = None"
    "snd (SystemDriverVersion second_uuid_fails) = None"
    "snd (DeviceCount second_uuid_fails) = None"
    "(1::int) < sint (fst (DeviceCount second_uuid_fails))"
    by (simp_all add: second_uuid_fails_def two_devices_def)
  have "device_read_error second_uuid_fails 0 = None"
    by (simp add: device_read_error_def device_errors_def second_uuid_fails_def two_devices_def
        healthy_device_def)
  then have "\<And>j::int. j = 0 \<Longrightarrow> device_read_error second_uuid_fails (word_of_int j) = None"
    by simp
  moreover have "\<And>j::int. 0 \<le> j \<and> j < 1 \<Longrightarrow> j = 0" by simp
  ultimately show "\<forall>j::int. 0 \<le> j \<and> j < 1 \<longrightarrow>
      device_read_error second_uuid_fails (word_of_int j) = None"
    by blast
  show "device_read_error second_uuid_fails (word_of_int 1) = Some (Error ''uuid'')"
    by (simp add: second_uuid_fails_error)
qed




text \<open>
  Claim C7. In every pass in which \<open>Initialize\<close> succeeds, whatever the later calls return,
  \<open>Shutdown\<close> is called exactly once and is the last call of the pass, and \<open>Initialize\<close> is
  the first call and is made once.
\<close>

theorem collectMetricDevice_shutdown_once:
  assumes "Initialize api = None"
  shows "count_list (snd (snd (collectMetricDevice api))) CallShutdown = 1 \<and>
         last (snd (snd (collectMetricDevice api))) = CallShutdown \<and>
         hd (snd (snd (collectMetricDevice api))) = CallInitialize \<and>
         count_list (snd (snd (collectMetricDevice api))) CallInitialize = 1"
proof -
  obtain r err calls where d: "collectMetricDevice_deferred api = (r, err, calls)"
    by (cases "collectMetricDevice_deferred api")
  have ns: "CallShutdown \<notin> set calls"
    using deferred_no_lifecycle [of CallShutdown api] d by simp
  have ni: "CallInitialize \<notin> set calls"
    using deferred_no_lifecycle [of CallInitialize api] d by simp
  from collect_init_ok [OF assms d] ns ni show ?thesis
    by (simp add: count_list_0_iff)
qed

text \<open>A pass that is aborted by a failing read in the middle of the enumeration.\<close>

theorem collectMetricDevice_shutdown_once_witness:
  "Initialize second_uuid_fails = None \<and>
   fst (snd (collectMetricDevice second_uuid_fails)) \<noteq> None \<and>
   count_list (snd (snd (collectMetricDevice second_uuid_fails))) CallShutdown = 1 \<and>
   last (snd (snd (collectMetricDevice second_uuid_fails))) = CallShutdown"
proof -
  have h: "Initialize second_uuid_fails = None"
    by (simp add: second_uuid_fails_def two_devices_def)
  have h1: "(0::int) \<le> 1" by simp
  have h2: "1 < sint (fst (DeviceCount second_uuid_fails))"
    by (simp add: second_uuid_fails_def two_devices_def)
  have h3: "device_read_error second_uuid_fails (word_of_int 1) \<noteq> None"
    by (simp add: second_uuid_fails_error)
  from deferred_read_fails [OF h1 h2 h3] obtain e calls where
    "collectMetricDevice_deferred second_uuid_fails = (None, Some e, calls)" by blast
  from collect_init_ok [OF h this] have "fst (snd (collectMetricDevice second_uuid_fails)) \<noteq> None"
    by simp
  with collectMetricDevice_shutdown_once [OF h] h show ?thesis by blast
qed

subsection \<open>Update\<close>

lemma NewGPUCollector_logger: "logger (fst (NewGPUCollector namespace lg)) = lg"
  by (simp add: NewGPUCollector_def Let_def)

lemma Update_on_error:
  assumes "fst (snd (collectMetricDevice api)) = Some e"
  shows "Update api g ch =
           Some (None, ch,
             level_Debug_Log (logger g) [(''msg'', ''gpu information is unavailable to collect'')],
             snd (snd (collectMetricDevice api)))"
  using assms by (cases "collectMetricDevice api") (auto simp add: Update_def)

text \<open>
  Claim C4. If \<open>Initialize\<close> fails, \<open>Update\<close> returns a nil error, leaves the channel as
  it was (no sample is sent), and writes one entry at debug level to the logger. The only
  call made to the library is \<open>Initialize\<close>.
\<close>

theorem Update_init_failure_soft:
  assumes "Initialize api = Some e"
  shows "Update api g ch =
           Some (None, ch,
             logger g @ [(DebugLevel, [(''msg'', ''gpu information is unavailable to collect'')])],
             [CallInitialize])"
  using Update_on_error [of api e g ch] collect_init_failed [OF assms]
  by (simp add: level_Debug_Log_def)

text \<open>A host without the driver.\<close>

theorem Update_init_failure_soft_witness:
  "Initialize no_driver = Some (Error ''could not load NVML library'') \<and>
   Update no_driver (fst (NewGPUCollector ''node'' [])) [] =
     Some (None, [], [(DebugLevel, [(''msg'', ''gpu information is unavailable to collect'')])],
           [CallInitialize])"
proof -
  have h: "Initialize no_driver = Some (Error ''could not load NVML library'')"
    by (simp add: no_driver_def)
  from Update_init_failure_soft [OF h, of "fst (NewGPUCollector ''node'' [])" "[]"] h
  show ?thesis by (simp add: NewGPUCollector_logger)
qed

text \<open>
  Claim C5 as stated fails: when the UUID read of device 1 fails, \<open>collectMetricDevice\<close>
  reports that error, and \<open>Update\<close> returns a nil error to its caller.
\<close>

theorem Update_read_error_counterexample:
  "fst (snd (collectMetricDevice second_uuid_fails)) = Some (Error ''uuid'') \<and>
   map_option fst (Update second_uuid_fails (fst (NewGPUCollector ''node'' [])) []) = Some None"
proof -
  from deferred_first_error [OF second_uuid_fails_facts(2,3) _ second_uuid_fails_facts(4,5,6)]
  obtain calls where
    "collectMetricDevice_deferred second_uuid_fails = (None, Some (Error ''uuid''), calls)"
    by auto
  from collect_init_ok [OF second_uuid_fails_facts(1) this]
  have e: "fst (snd (collectMetricDevice second_uuid_fails)) = Some (Error ''uuid'')" by simp
  from Update_on_error [OF e] e show ?thesis by simp
qed

text \<open>
  Claim C5, as amended. Every error of a pass (of \<open>Initialize\<close>, of the driver version
  query, of the device count query, or the first failing call for the first device that
  cannot be read) is returned by \<open>collectMetricDevice\<close> to its caller \<open>Update\<close>, together with
  a nil result. \<open>Update\<close> does not pass it on: it writes one entry at debug level to the
  logger, sends no sample and returns a nil error.
\<close>

theorem Update_suppresses_errors:
  "(Initialize api = Some e \<longrightarrow> fst (snd (collectMetricDevice api)) = Some e) \<and>
   (Initialize api = None \<and> snd (SystemDriverVersion api) = Some e \<longrightarrow>
      fst (snd (collectMetricDevice api)) = Some e) \<and>
   (Initialize api = None \<and> snd (SystemDriverVersion api) = None \<and>
    snd (DeviceCount api) = Some e \<longrightarrow>
      fst (snd (collectMetricDevice api)) = Some e) \<and>
   (Initialize api = None \<and> snd (SystemDriverVersion api) = None \<and>
    snd (DeviceCount api) = None \<and> 0 \<le> k \<and> k < sint (fst (DeviceCount api)) \<and>
    (\<forall>j. 0 \<le> j \<and> j < k \<longrightarrow> device_read_error api (word_of_int j) = None) \<and>
    device_read_error api (word_of_int k) = Some e \<longrightarrow>
      fst (snd (collectMetricDevice api)) = Some e) \<and>
   (fst (snd (collectMetricDevice api)) = Some e \<longrightarrow>
      fst (collectMetricDevice api) = None \<and>
      Update api g ch =
        Some (None, ch,
          logger g @ [(DebugLevel, [(''msg'', ''gpu information is unavailable to collect'')])],
          snd (snd (collectMetricDevice api))))"
proof (intro conjI impI)
  assume "Initialize api = Some e"
  then show "fst (snd (collectMetricDevice api)) = Some e" by (simp add: collect_init_failed)
next
  assume a: "Initialize api = None \<and> snd (SystemDriverVersion api) = Some e"
  with deferred_cases [of api] have "collectMetricDevice_deferred api = (None, Some e, [CallSystemDriverVersion])"
    by auto
  from collect_init_ok [OF _ this] a show "fst (snd (collectMetricDevice api)) = Some e" by simp
next
  assume a: "Initialize api = None \<and> snd (SystemDriverVersion api) = None \<and>
    snd (DeviceCount api) = Some e"
  with deferred_cases [of api] have "collectMetricDevice_deferred api =
      (None, Some e, [CallSystemDriverVersion, CallDeviceCount])"
    by auto
  from collect_init_ok [OF _ this] a show "fst (snd (collectMetricDevice api)) = Some e" by simp
next
  assume a: "Initialize api = None \<and> snd (SystemDriverVersion api) = None \<and>
    snd (DeviceCount api) = None \<and> 0 \<le> k \<and> k < sint (fst (DeviceCount api)) \<and>
    (\<forall>j. 0 \<le> j \<and> j < k \<longrightarrow> device_read_error api (word_of_int j) = None) \<and>
    device_read_error api (word_of_int k) = Some e"
  then obtain calls where "collectMetricDevice_deferred api = (None, Some e, calls)"
    using deferred_first_error [of api k e] by blast
  from collect_init_ok [OF _ this] a show "fst (snd (collectMetricDevice api)) = Some e" by simp
next
  assume a: "fst (snd (collectMetricDevice api)) = Some e"
  with collect_all_or_nothing [of api] show "fst (collectMetricDevice api) = None" by auto
  from Update_on_error [OF a] show "Update api g ch =
        Some (None, ch,
          logger g @ [(DebugLevel, [(''msg'', ''gpu information is unavailable to collect'')])],
          snd (snd (collectMetricDevice api)))"
    by (simp add: level_Debug_Log_def)
qed

text \<open>The pass in which the UUID read of device 1 fails.\<close>

theorem Update_suppresses_errors_witness:
  "fst (snd (collectMetricDevice second_uuid_fails)) = Some (Error ''uuid'') \<and>
   fst (collectMetricDevice second_uuid_fails) = None \<and>
   Update second_uuid_fails (fst (NewGPUCollector ''node'' [])) [] =
     Some (None, [], [(DebugLevel, [(''msg'', ''gpu information is unavailable to collect'')])],
           snd (snd (collectMetricDevice second_uuid_fails)))"
proof -
  note t = Update_suppresses_errors [of second_uuid_fails "Error ''uuid''" 1
      "fst (NewGPUCollector ''node'' [])" "[]"]
  have e: "fst (snd (collectMetricDevice second_uuid_fails)) = Some (Error ''uuid'')"
    using t second_uuid_fails_facts by simp
  with t show ?thesis by (simp add: NewGPUCollector_logger)
qed

subsection \<open>The samples of a successful pass\<close>










end
